theory Spec2Isabelle
  imports Main
begin

section \<open>Data model of the messages provider\<close>

text \<open>
  The provider (\<^verbatim>\<open>MessagesProvider\<close>, the variant with \<^verbatim>\<open>setContactId\<close>) keeps the
  message list of the open chat. JavaScript's \<^verbatim>\<open>null\<close> and \<^verbatim>\<open>undefined\<close> of a
  nullable field are both \<open>None\<close>; the source only tests such fields for truthiness,
  compares them with a string, or reads them through \<^verbatim>\<open>??\<close>, and each of these treats
  the two alike. Identifiers are integers.
\<close>

datatype msg_type = Text | Image | Audio | Video

datatype msg_status = Sending | Sent

text \<open>
  Modelled from the spec: the declaration of \<^verbatim>\<open>WhatsAppMessage\<close> (imported from
  \<^verbatim>\<open>../types\<close>) is not among the sources; the fields are those that
  \<^verbatim>\<open>addOptimisticMessage\<close> writes and that the spec's data model lists. The fields
  \<^verbatim>\<open>id\<close>, \<^verbatim>\<open>type\<close>, \<^verbatim>\<open>from\<close>, \<^verbatim>\<open>to\<close> and \<^verbatim>\<open>text\<close> carry the prefix
  \<open>msg_\<close> because their names are taken in Isabelle. A row read from the store has no
  \<^verbatim>\<open>status\<close> (\<open>None\<close>).
\<close>

record WhatsAppMessage =
  msg_id :: int
  msg_type :: msg_type
  msg_from :: "string option"
  msg_to :: "string option"
  msg_text :: "string option"
  media_url :: "string option"
  is_reply :: "string option"
  reply_to_mid :: "string option"
  mid :: "string option"
  created_at :: string
  status :: "msg_status option"

text \<open>\<^verbatim>\<open>Partial<WhatsAppMessage>\<close>: every field may be missing.\<close>

record PartialMessage =
  p_id :: "int option"
  p_type :: "msg_type option"
  p_from :: "string option"
  p_to :: "string option"
  p_text :: "string option"
  p_media_url :: "string option"
  p_is_reply :: "string option"
  p_reply_to_mid :: "string option"
  p_mid :: "string option"
  p_created_at :: "string option"

text \<open>The four pieces of provider state: three \<^verbatim>\<open>useState\<close> cells and \<^verbatim>\<open>contactIdRef\<close>.\<close>

record state =
  messages :: "WhatsAppMessage list"
  loading :: bool
  error :: "string option"
  contactIdRef :: "string option"

definition initial_state :: state where
  "initial_state = \<lparr>messages = [], loading = False, error = None, contactIdRef = None\<rparr>"

subsection \<open>JavaScript truthiness\<close>

text \<open>A string is truthy unless it is missing or empty.\<close>

fun truthy_str :: "string option \<Rightarrow> bool" where
  "truthy_str None = False"
| "truthy_str (Some s) = (s \<noteq> [])"

text \<open>
  \<^verbatim>\<open>a || b\<close> on a number and on a string: \<open>a\<close> when it is truthy (a number that is
  present and not zero, a string that is present and not empty), else \<open>b\<close>.
\<close>

fun or_num :: "int option \<Rightarrow> int \<Rightarrow> int" where
  "or_num None d = d"
| "or_num (Some n) d = (if n \<noteq> 0 then n else d)"

fun or_str :: "string option \<Rightarrow> string \<Rightarrow> string" where
  "or_str None d = d"
| "or_str (Some s) d = (if s \<noteq> [] then s else d)"

subsection \<open>Message identity\<close>

text \<open>
  The predicate both \<^verbatim>\<open>addOptimisticMessage\<close> and the INSERT handler pass to
  \<^verbatim>\<open>some\<close> / \<^verbatim>\<open>findIndex\<close>:
  \<^verbatim>\<open>(m) => m.id === newMsg.id || (m.mid && newMsg.mid && m.mid === newMsg.mid)\<close>.
\<close>

definition same_message :: "WhatsAppMessage \<Rightarrow> WhatsAppMessage \<Rightarrow> bool" where
  "same_message newMsg m \<longleftrightarrow>
     msg_id m = msg_id newMsg \<or>
     (truthy_str (mid m) \<and> truthy_str (mid newMsg) \<and> mid m = mid newMsg)"

text \<open>\<^verbatim>\<open>Array.prototype.findIndex\<close>; \<open>None\<close> stands for the result \<^verbatim>\<open>-1\<close>.\<close>

fun findIndex :: "('a \<Rightarrow> bool) \<Rightarrow> 'a list \<Rightarrow> nat option" where
  "findIndex P [] = None"
| "findIndex P (x # xs) =
     (if P x then Some 0 else map_option Suc (findIndex P xs))"

section \<open>Optimistic submission\<close>

text \<open>
  \<^verbatim>\<open>addOptimisticMessage\<close>. The clock is a parameter: \<open>now\<close> is \<^verbatim>\<open>Date.now()\<close> and
  \<open>nowIso\<close> is \<^verbatim>\<open>new Date().toISOString()\<close>.
\<close>

definition synthesize :: "int \<Rightarrow> string \<Rightarrow> PartialMessage \<Rightarrow> WhatsAppMessage" where
  "synthesize now nowIso message =
     \<lparr>msg_id = or_num (p_id message) now,
      msg_type = (case p_type message of Some t \<Rightarrow> t | None \<Rightarrow> Text),
      msg_from = p_from message,
      msg_to = p_to message,
      msg_text = p_text message,
      media_url = p_media_url message,
      is_reply = p_is_reply message,
      reply_to_mid = p_reply_to_mid message,
      mid = p_mid message,
      created_at = or_str (p_created_at message) nowIso,
      status = Some Sending\<rparr>"

definition addOptimisticMessage ::
  "int \<Rightarrow> string \<Rightarrow> PartialMessage \<Rightarrow> state \<Rightarrow> WhatsAppMessage \<times> state" where
  "addOptimisticMessage now nowIso message st =
     (let newMsg = synthesize now nowIso message;
          prev = messages st;
          exists = list_ex (same_message newMsg) prev
      in (newMsg, st\<lparr>messages := (if exists then prev else prev @ [newMsg])\<rparr>))"

section \<open>Realtime change events\<close>

text \<open>
  The payload of a \<^verbatim>\<open>postgres_changes\<close> event as the handler reads it:
  \<^verbatim>\<open>payload.eventType\<close>, \<^verbatim>\<open>payload.new\<close> and \<^verbatim>\<open>payload.old.id\<close>.
\<close>

datatype event_type = INSERT | UPDATE | DELETE

record payload =
  eventType :: event_type
  new :: WhatsAppMessage
  old_id :: int

text \<open>The regular expression \<^verbatim>\<open>/^\d+$/\<close>: one or more characters, all of them digits.\<close>

definition is_digit :: "char \<Rightarrow> bool" where
  "is_digit c \<longleftrightarrow> c \<in> set ''0123456789''"

definition all_digits :: "string \<Rightarrow> bool" where
  "all_digits s \<longleftrightarrow> s \<noteq> [] \<and> list_all is_digit s"

text \<open>
  \<^verbatim>\<open>newMsg.from && /^\d+$/.test(newMsg.from) ? newMsg.from : newMsg.to\<close>
\<close>

definition msgContact :: "WhatsAppMessage \<Rightarrow> string option" where
  "msgContact m =
     (case msg_from m of
        Some f \<Rightarrow> if f \<noteq> [] \<and> all_digits f then Some f else msg_to m
      | None \<Rightarrow> msg_to m)"

text \<open>The three updater functions the handler passes to \<^verbatim>\<open>setMessages\<close>.\<close>

definition insert_updater :: "WhatsAppMessage \<Rightarrow> WhatsAppMessage list \<Rightarrow> WhatsAppMessage list" where
  "insert_updater newMsg prev =
     (case findIndex (same_message newMsg) prev of
        Some existingIndex \<Rightarrow> prev[existingIndex := newMsg\<lparr>status := Some Sent\<rparr>]
      | None \<Rightarrow> prev @ [newMsg\<lparr>status := Some Sent\<rparr>])"

definition update_updater :: "WhatsAppMessage \<Rightarrow> WhatsAppMessage list \<Rightarrow> WhatsAppMessage list" where
  "update_updater updatedMsg prev =
     map (\<lambda>m. if msg_id m = msg_id updatedMsg then updatedMsg\<lparr>status := Some Sent\<rparr> else m) prev"

definition delete_updater :: "int \<Rightarrow> WhatsAppMessage list \<Rightarrow> WhatsAppMessage list" where
  "delete_updater deletedId prev = filter (\<lambda>m. msg_id m \<noteq> deletedId) prev"

text \<open>The callback registered on the shared channel. It reads \<^verbatim>\<open>contactIdRef.current\<close>.\<close>

definition on_postgres_changes :: "payload \<Rightarrow> state \<Rightarrow> state" where
  "on_postgres_changes pl st =
     (let currentId = contactIdRef st in
      if \<not> truthy_str currentId then st
      else case eventType pl of
        INSERT \<Rightarrow>
          if msgContact (new pl) \<noteq> currentId then st
          else st\<lparr>messages := insert_updater (new pl) (messages st)\<rparr>
      | UPDATE \<Rightarrow>
          if msgContact (new pl) \<noteq> currentId then st
          else st\<lparr>messages := update_updater (new pl) (messages st)\<rparr>
      | DELETE \<Rightarrow> st\<lparr>messages := delete_updater (old_id pl) (messages st)\<rparr>)"

section \<open>Snapshot fetch and contact selection\<close>

text \<open>
  \<^verbatim>\<open>fetchMessages\<close> and \<^verbatim>\<open>setContactId\<close> call the state setters with plain values, so
  each is modelled by the sequence of effects it performs, in program order; the remote
  query is one of the effects. The remote store is a parameter: \<open>store c\<close> is what the
  query scoped to contact \<open>c\<close> settles to. The source's variable \<^verbatim>\<open>id\<close> is \<open>cid\<close> here. Console logging is left out.
\<close>

text \<open>
  What the \<^verbatim>\<open>catch\<close> block receives: an instance of \<^verbatim>\<open>Error\<close> with its
  \<^verbatim>\<open>message\<close>, or any other value, with the \<^verbatim>\<open>message\<close> property it has, if any (the
  store's error object, a string, ...).
\<close>

datatype thrown = ErrorInstance string | OtherValue "string option"

datatype query_outcome =
    Resolved "WhatsAppMessage list option" "thrown option"
  | Rejected thrown

datatype effect =
    SetMessages "WhatsAppMessage list"
  | SetLoading bool
  | SetError "string option"
  | SetContactIdRef "string option"
  | StoreQuery string

fun apply_effect :: "effect \<Rightarrow> state \<Rightarrow> state" where
  "apply_effect (SetMessages ms) st = st\<lparr>messages := ms\<rparr>"
| "apply_effect (SetLoading b) st = st\<lparr>loading := b\<rparr>"
| "apply_effect (SetError e) st = st\<lparr>error := e\<rparr>"
| "apply_effect (SetContactIdRef c) st = st\<lparr>contactIdRef := c\<rparr>"
| "apply_effect (StoreQuery q) st = st"

definition run_effects :: "effect list \<Rightarrow> state \<Rightarrow> state" where
  "run_effects es st = fold apply_effect es st"

text \<open>\<^verbatim>\<open>err instanceof Error ? err.message : 'Unknown error'\<close>\<close>

fun error_text :: "thrown \<Rightarrow> string" where
  "error_text (ErrorInstance message) = message"
| "error_text (OtherValue property) = ''Unknown error''"

text \<open>
  The part of \<^verbatim>\<open>fetchMessages\<close> after the \<^verbatim>\<open>await\<close>: the rest of the \<^verbatim>\<open>try\<close> block,
  the \<^verbatim>\<open>catch\<close> and the \<^verbatim>\<open>finally\<close>.
\<close>

fun fetch_resume :: "query_outcome \<Rightarrow> effect list" where
  "fetch_resume (Rejected err) = [SetError (Some (error_text err)), SetLoading False]"
| "fetch_resume (Resolved data (Some fetchError)) =
     [SetError (Some (error_text fetchError)), SetLoading False]"
| "fetch_resume (Resolved data None) =
     [SetMessages (case data of Some rows \<Rightarrow> rows | None \<Rightarrow> []), SetLoading False]"

text \<open>
  The argument \<open>forContactId\<close> is \<open>None\<close> when the caller passes nothing
  (\<^verbatim>\<open>undefined\<close>), \<open>Some None\<close> for \<^verbatim>\<open>null\<close> and \<open>Some (Some c)\<close> for a string;
  \<open>current\<close> is \<^verbatim>\<open>contactIdRef.current\<close> at the time of the call. The first line of
  the function, \<^verbatim>\<open>forContactId !== undefined ? forContactId : contactIdRef.current\<close>, is
  \<open>requested_id\<close>.
\<close>

definition requested_id :: "string option option \<Rightarrow> string option \<Rightarrow> string option" where
  "requested_id forContactId current =
     (case forContactId of Some given \<Rightarrow> given | None \<Rightarrow> current)"

definition fetchMessages ::
  "(string \<Rightarrow> query_outcome) \<Rightarrow> string option option \<Rightarrow> string option \<Rightarrow> effect list" where
  "fetchMessages store forContactId current =
     (let cid = requested_id forContactId current in
      case cid of
        None \<Rightarrow> [SetMessages [], SetLoading False]
      | Some c \<Rightarrow>
          if c = [] then [SetMessages [], SetLoading False]
          else [SetError None, StoreQuery c] @ fetch_resume (store c))"


definition setContactId :: "(string \<Rightarrow> query_outcome) \<Rightarrow> string option \<Rightarrow> effect list" where
  "setContactId store cid =
     [SetContactIdRef cid, SetMessages [], SetLoading True] @ fetchMessages store (Some cid) cid"

text \<open>
  The recovery paths of the provider's effect hook: the \<^verbatim>\<open>visibilitychange\<close> listener,
  the \<^verbatim>\<open>online\<close> listener, the 30 s interval and the channel's status callback. Each
  calls \<^verbatim>\<open>fetchMessages\<close> without an argument.
\<close>

datatype trigger = VisibilityChange string | Online | SafetyPoll | ChannelStatus string

fun recovery :: "(string \<Rightarrow> query_outcome) \<Rightarrow> trigger \<Rightarrow> string option \<Rightarrow> effect list" where
  "recovery store (VisibilityChange visibilityState) current =
     (if visibilityState = ''visible'' then fetchMessages store None current else [])"
| "recovery store Online current = fetchMessages store None current"
| "recovery store SafetyPoll current = fetchMessages store None current"
| "recovery store (ChannelStatus st) current =
     (if st = ''SUBSCRIBED'' then fetchMessages store None current else [])"

section \<open>Runs of the provider\<close>

text \<open>
  Callback bodies run one after another on the event loop. \<open>Resume\<close> is the
  continuation of a fetch that was in flight while other callbacks ran.
\<close>

datatype event =
    Realtime payload
  | Submit int string PartialMessage
  | Fetch "string \<Rightarrow> query_outcome" "string option option"
  | Select "string \<Rightarrow> query_outcome" "string option"
  | Recover "string \<Rightarrow> query_outcome" trigger
  | Resume query_outcome

fun step :: "event \<Rightarrow> state \<Rightarrow> state" where
  "step (Realtime pl) st = on_postgres_changes pl st"
| "step (Submit now nowIso message) st = snd (addOptimisticMessage now nowIso message st)"
| "step (Fetch store forContactId) st =
     run_effects (fetchMessages store forContactId (contactIdRef st)) st"
| "step (Select store cid) st = run_effects (setContactId store cid) st"
| "step (Recover store t) st = run_effects (recovery store t (contactIdRef st)) st"
| "step (Resume outcome) st = run_effects (fetch_resume outcome) st"

definition run :: "event list \<Rightarrow> state \<Rightarrow> state" where
  "run evs st = fold step evs st"

section \<open>Push notification worker\<close>

text \<open>
  The \<^verbatim>\<open>push\<close> listener of the service worker. What \<^verbatim>\<open>event.data.json()\<close> does is a
  parameter: there is no payload (\<^verbatim>\<open>event.data\<close> is \<^verbatim>\<open>null\<close>, the call throws a
  TypeError inside the \<^verbatim>\<open>try\<close>), the text is not JSON (it throws a SyntaxError), or
  it returns a JSON value.
\<close>

datatype json =
    JNull
  | JBool bool
  | JNum int
  | JStr string
  | JArr "json list"
  | JObj "(string \<times> json) list"

datatype push_data = NoData | NotJson | Parsed json

datatype js_error = TypeError

text \<open>
  Reading a property: a TypeError on \<^verbatim>\<open>null\<close>, the member of an object when it has
  one, and \<^verbatim>\<open>undefined\<close> (\<open>None\<close>) otherwise; none of the names read here is a
  property of a number, string, boolean or array.
\<close>

fun get_prop :: "json \<Rightarrow> string \<Rightarrow> js_error + json option" where
  "get_prop JNull k = Inl TypeError"
| "get_prop (JObj members) k = Inr (map_of members k)"
| "get_prop v k = Inr None"

fun truthy_json :: "json option \<Rightarrow> bool" where
  "truthy_json None = False"
| "truthy_json (Some JNull) = False"
| "truthy_json (Some (JBool b)) = b"
| "truthy_json (Some (JNum n)) = (n \<noteq> 0)"
| "truthy_json (Some (JStr s)) = (s \<noteq> [])"
| "truthy_json (Some v) = True"

record notification =
  n_title :: "json option"
  n_body :: "json option"
  n_icon :: string
  n_badge :: string
  n_vibrate :: "nat list"
  n_data :: json
  n_actions :: "(string \<times> string) list"
  n_tag :: string
  n_renotify :: bool

definition default_data :: json where
  "default_data =
     JObj [(''title'', JStr ''New Message''), (''body'', JStr ''You have a new message'')]"

text \<open>
  The result is the call \<^verbatim>\<open>showNotification(data.title, options)\<close>, or the error that
  escapes the listener before the call is reached. The properties are read in the order
  of the source: \<^verbatim>\<open>data.body\<close>, \<^verbatim>\<open>data.data\<close>, then \<^verbatim>\<open>data.title\<close>.
\<close>

definition push_listener :: "push_data \<Rightarrow> js_error + notification" where
  "push_listener d =
     (let data = (case d of Parsed v \<Rightarrow> v | NoData \<Rightarrow> default_data | NotJson \<Rightarrow> default_data) in
      case get_prop data ''body'' of
        Inl e \<Rightarrow> Inl e
      | Inr body \<Rightarrow>
         (case get_prop data ''data'' of
            Inl e \<Rightarrow> Inl e
          | Inr extra \<Rightarrow>
             (case get_prop data ''title'' of
                Inl e \<Rightarrow> Inl e
              | Inr title \<Rightarrow>
                  Inr \<lparr>n_title = title,
                       n_body = body,
                       n_icon = ''/vite.svg'',
                       n_badge = ''/vite.svg'',
                       n_vibrate = [200, 100, 200],
                       n_data = (case extra of Some v \<Rightarrow> if truthy_json extra then v else JObj []
                                 | None \<Rightarrow> JObj []),
                       n_actions = [(''open'', ''Open'')],
                       n_tag = ''portal-message'',
                       n_renotify = True\<rparr>)))"

section \<open>Notions used by the properties\<close>


text \<open>
  The handler acts on an event when a chat is open and, for INSERT and UPDATE, the
  contact computed from the row is the open chat; these are the two early
  \<^verbatim>\<open>return\<close>s of the callback.
\<close>

definition accepted :: "state \<Rightarrow> payload \<Rightarrow> bool" where
  "accepted st pl \<longleftrightarrow>
     truthy_str (contactIdRef st) \<and>
     (eventType pl = DELETE \<or> msgContact (new pl) = contactIdRef st)"

text \<open>
  At most one entry per identifier and at most one entry per non-empty external message
  identifier.
\<close>

definition no_duplicates :: "WhatsAppMessage list \<Rightarrow> bool" where
  "no_duplicates ms \<longleftrightarrow>
     distinct (map msg_id ms) \<and> distinct (map mid (filter (\<lambda>m. truthy_str (mid m)) ms))"

text \<open>A snapshot that replaces the list is itself free of duplicates.\<close>

fun snapshot_ok :: "query_outcome \<Rightarrow> bool" where
  "snapshot_ok (Resolved (Some rows) None) = no_duplicates rows"
| "snapshot_ok outcome = True"

text \<open>
  The two situations in which the handler keeps the list free of duplicates: the row of
  an INSERT matches at most one entry, and the row of an UPDATE either hits no entry or
  brings no external identifier that an entry with another identifier already holds.
\<close>

definition single_match :: "WhatsAppMessage \<Rightarrow> WhatsAppMessage list \<Rightarrow> bool" where
  "single_match n ms \<longleftrightarrow> length (filter (same_message n) ms) \<le> 1"

definition mid_free :: "WhatsAppMessage \<Rightarrow> WhatsAppMessage list \<Rightarrow> bool" where
  "mid_free u ms \<longleftrightarrow>
     \<not> list_ex (\<lambda>m. msg_id m = msg_id u) ms \<or>
     \<not> list_ex (\<lambda>m. msg_id m \<noteq> msg_id u \<and> truthy_str (mid m) \<and> mid m = mid u) ms"

fun admissible :: "state \<Rightarrow> event \<Rightarrow> bool" where
  "admissible st (Realtime pl) =
     (if accepted st pl then
        (case eventType pl of
           INSERT \<Rightarrow> single_match (new pl) (messages st)
         | UPDATE \<Rightarrow> mid_free (new pl) (messages st)
         | DELETE \<Rightarrow> True)
      else True)"
| "admissible st (Submit now nowIso message) = True"
| "admissible st (Fetch store forContactId) =
     (case requested_id forContactId (contactIdRef st) of
        Some c \<Rightarrow> snapshot_ok (store c)
      | None \<Rightarrow> True)"
| "admissible st (Select store cid) =
     (case cid of Some c \<Rightarrow> snapshot_ok (store c) | None \<Rightarrow> True)"
| "admissible st (Recover store t) =
     (case contactIdRef st of Some c \<Rightarrow> snapshot_ok (store c) | None \<Rightarrow> True)"
| "admissible st (Resume outcome) = snapshot_ok outcome"

fun run_admissible :: "state \<Rightarrow> event list \<Rightarrow> bool" where
  "run_admissible st [] = True"
| "run_admissible st (ev # evs) = (admissible st ev \<and> run_admissible (step ev st) evs)"

section \<open>Sample data\<close>

definition row :: "int \<Rightarrow> string option \<Rightarrow> string option \<Rightarrow> string option \<Rightarrow> WhatsAppMessage" where
  "row i sender recipient external =
     \<lparr>msg_id = i, msg_type = Text, msg_from = sender, msg_to = recipient, msg_text = Some ''hi'',
      media_url = None, is_reply = None, reply_to_mid = None, mid = external,
      created_at = ''2024-01-01T00:00:00.000Z'', status = None\<rparr>"

text \<open>The \<^verbatim>\<open>payload.new\<close> of a DELETE event carries no sender and no recipient.\<close>

definition empty_row :: WhatsAppMessage where
  "empty_row = row 0 None None None"

definition partial :: "int option \<Rightarrow> string option \<Rightarrow> PartialMessage" where
  "partial i external =
     \<lparr>p_id = i, p_type = None, p_from = None, p_to = Some ''555'', p_text = Some ''hi'',
      p_media_url = None, p_is_reply = None, p_reply_to_mid = None, p_mid = external,
      p_created_at = None\<rparr>"

definition two_rows :: "WhatsAppMessage list" where
  "two_rows = [row 1 (Some ''555'') None (Some ''wamid.A''), row 2 None (Some ''555'') None]"

definition chat_state :: "WhatsAppMessage list \<Rightarrow> state" where
  "chat_state ms = \<lparr>messages = ms, loading = False, error = None, contactIdRef = Some ''555''\<rparr>"

definition stale_state :: state where
  "stale_state =
     \<lparr>messages = two_rows, loading = True, error = Some ''timeout'', contactIdRef = Some ''555''\<rparr>"

definition failing_store :: "string \<Rightarrow> query_outcome" where
  "failing_store c = Resolved None (Some (ErrorInstance ''timeout''))"


definition empty_store :: "string \<Rightarrow> query_outcome" where
  "empty_store c = Resolved (Some []) None"

definition clash_state :: state where
  "clash_state = chat_state [row 5 (Some ''555'') None None]"

definition clash_insert :: payload where
  "clash_insert =
     \<lparr>eventType = INSERT, new = row 5 (Some ''555'') None (Some ''wamid.X''), old_id = 0\<rparr>"

definition clash_events :: "event list" where
  "clash_events =
     [Select empty_store (Some ''555''),
      Submit 1000 ''t1'' (partial (Some 5) None),
      Submit 1001 ''t2'' (partial (Some 6) (Some ''wamid.X'')),
      Realtime \<lparr>eventType = INSERT, new = row 5 None (Some ''555'') (Some ''wamid.X''), old_id = 0\<rparr>]"

definition calm_events :: "event list" where
  "calm_events =
     [Select empty_store (Some ''555''),
      Recover empty_store Online,
      Submit 1000 ''t1'' (partial (Some 5) None),
      Realtime \<lparr>eventType = INSERT, new = row 5 None (Some ''555'') (Some ''wamid.X''), old_id = 0\<rparr>,
      Realtime \<lparr>eventType = UPDATE, new = row 5 None (Some ''555'') (Some ''wamid.Y''), old_id = 0\<rparr>,
      Realtime \<lparr>eventType = INSERT, new = row 6 (Some ''555'') None (Some ''wamid.Z''), old_id = 0\<rparr>,
      Realtime \<lparr>eventType = DELETE, new = empty_row, old_id = 5\<rparr>,
      Submit 1002 ''t3'' (partial None None)]"

lemmas eval_defs = chat_state_def two_rows_def row_def empty_row_def partial_def msgContact_def
  all_digits_def is_digit_def same_message_def on_postgres_changes_def insert_updater_def
  update_updater_def delete_updater_def Let_def addOptimisticMessage_def synthesize_def
  initial_state_def

section \<open>Auxiliary facts\<close>

subsection \<open>\<open>findIndex\<close> and list updates\<close>

lemma findIndex_None: "findIndex P xs = None \<longleftrightarrow> \<not> list_ex P xs"
  by (induction xs) auto

lemma findIndex_Some:
  "findIndex P xs = Some i \<Longrightarrow> i < length xs \<and> P (xs ! i) \<and> (\<forall>j<i. \<not> P (xs ! j))"
proof (induction xs arbitrary: i)
  case Nil then show ?case by simp
next
  case (Cons x xs)
  show ?case
  proof (cases "P x")
    case True with Cons.prems show ?thesis by simp
  next
    case False
    with Cons.prems obtain k where k: "findIndex P xs = Some k" "i = Suc k" by auto
    from Cons.IH [OF k(1)] False k(2) show ?thesis
      by (auto simp: nth_Cons split: nat.splits)
  qed
qed

lemma findIndex_append_fresh:
  "\<not> list_ex P xs \<Longrightarrow> P y \<Longrightarrow> findIndex P (xs @ [y]) = Some (length xs)"
  by (induction xs) auto

lemma findIndex_split:
  "findIndex P xs = Some i \<Longrightarrow> length (filter P xs) \<le> 1 \<Longrightarrow>
   i < length xs \<and> (\<forall>m \<in> set (take i xs) \<union> set (drop (Suc i) xs). \<not> P m)"
proof (induction xs arbitrary: i)
  case Nil then show ?case by simp
next
  case (Cons x xs)
  show ?case
  proof (cases "P x")
    case True
    with Cons.prems have "i = 0" "filter P xs = []" by simp_all
    then show ?thesis by (simp add: filter_empty_conv)
  next
    case False
    with Cons.prems obtain k where k: "findIndex P xs = Some k" "i = Suc k" by auto
    from Cons.prems False have "length (filter P xs) \<le> 1" by simp
    from Cons.IH [OF k(1) this] False k(2) show ?thesis by simp
  qed
qed

lemma map_no_hit: "\<forall>m\<in>set xs. \<not> P m \<Longrightarrow> map (\<lambda>m. if P m then y else m) xs = xs"
  by (induction xs) auto

subsection \<open>The updaters and the handler\<close>

lemma same_message_status: "same_message (n\<lparr>status := s\<rparr>) = same_message n"
  by (rule ext) (simp add: same_message_def)

lemma same_message_sym: "same_message a b = same_message b a"
  by (auto simp: same_message_def)

lemma insert_updater_match:
  assumes "list_ex (same_message n) prev"
  shows "\<exists>i<length prev. same_message n (prev ! i) \<and> (\<forall>j<i. \<not> same_message n (prev ! j)) \<and>
           insert_updater n prev = prev[i := n\<lparr>status := Some Sent\<rparr>]"
proof -
  from assms obtain i where i: "findIndex (same_message n) prev = Some i"
    using findIndex_None [of "same_message n" prev] by (cases "findIndex (same_message n) prev") auto
  from findIndex_Some [OF i] i show ?thesis
    by (auto simp: insert_updater_def)
qed

lemma insert_updater_fresh:
  "\<not> list_ex (same_message n) prev \<Longrightarrow> insert_updater n prev = prev @ [n\<lparr>status := Some Sent\<rparr>]"
  using findIndex_None [of "same_message n" prev] by (simp add: insert_updater_def)

lemma insert_updater_last:
  "\<not> list_ex (same_message n) prev \<Longrightarrow> same_message n y \<Longrightarrow>
   insert_updater n (prev @ [y]) = prev @ [n\<lparr>status := Some Sent\<rparr>]"
  by (simp add: insert_updater_def findIndex_append_fresh)

lemma handler_rejected: "\<not> accepted st pl \<Longrightarrow> on_postgres_changes pl st = st"
  by (cases "eventType pl") (auto simp: accepted_def on_postgres_changes_def Let_def)

lemma handler_accepted:
  "accepted st pl \<Longrightarrow>
   messages (on_postgres_changes pl st) =
     (case eventType pl of
        INSERT \<Rightarrow> insert_updater (new pl) (messages st)
      | UPDATE \<Rightarrow> update_updater (new pl) (messages st)
      | DELETE \<Rightarrow> delete_updater (old_id pl) (messages st))"
  by (cases "eventType pl") (auto simp: accepted_def on_postgres_changes_def Let_def)

lemma handler_keeps_loading: "loading (on_postgres_changes pl st) = loading st"
  by (simp add: on_postgres_changes_def Let_def split: event_type.splits)

lemma all_digits_iff: "all_digits f \<longleftrightarrow> f \<noteq> [] \<and> set f \<subseteq> set ''0123456789''"
  unfolding all_digits_def is_digit_def list_all_iff by blast

subsection \<open>Optimistic submission\<close>

lemma submit_existing:
  "list_ex (same_message (synthesize now nowIso message)) (messages st) \<Longrightarrow>
   addOptimisticMessage now nowIso message st = (synthesize now nowIso message, st)"
  by (simp add: addOptimisticMessage_def Let_def)

lemma submit_fresh:
  "\<not> list_ex (same_message (synthesize now nowIso message)) (messages st) \<Longrightarrow>
   messages (snd (addOptimisticMessage now nowIso message st)) =
     messages st @ [synthesize now nowIso message]"
  by (simp add: addOptimisticMessage_def Let_def)

lemma submit_keeps_contact:
  "contactIdRef (snd (addOptimisticMessage now nowIso message st)) = contactIdRef st"
  by (simp add: addOptimisticMessage_def Let_def)

lemma submit_length:
  "length (messages (snd (addOptimisticMessage now nowIso message st))) \<le> Suc (length (messages st))"
  by (simp add: addOptimisticMessage_def Let_def)

lemma submit_keeps_loading: "loading (snd (addOptimisticMessage now nowIso message st)) = loading st"
  by (simp add: addOptimisticMessage_def Let_def)

lemma submit_twice:
  assumes "msg_id (synthesize now' nowIso' message') = msg_id (synthesize now nowIso message)"
  shows "length (messages (step (Submit now' nowIso' message') (step (Submit now nowIso message) st)))
        \<le> length (messages st) + 1"
proof (cases "list_ex (same_message (synthesize now nowIso message)) (messages st)")
  case True
  then have "step (Submit now nowIso message) st = st"
    by (simp add: submit_existing)
  then show ?thesis
    using submit_length [of now' nowIso' message' st] by simp
next
  case False
  let ?st1 = "snd (addOptimisticMessage now nowIso message st)"
  from False have m1: "messages ?st1 = messages st @ [synthesize now nowIso message]"
    by (rule submit_fresh)
  with assms have "list_ex (same_message (synthesize now' nowIso' message')) (messages ?st1)"
    by (simp add: same_message_def)
  then have "snd (addOptimisticMessage now' nowIso' message' ?st1) = ?st1"
    by (simp add: submit_existing)
  with m1 show ?thesis by simp
qed

subsection \<open>Fetching\<close>

lemma run_effects_append: "run_effects (a @ b) st = run_effects b (run_effects a st)"
  by (simp add: run_effects_def)

lemma fetch_no_contact:
  "\<not> truthy_str (requested_id forContactId current) \<Longrightarrow>
   fetchMessages store forContactId current = [SetMessages [], SetLoading False]"
  by (auto simp: fetchMessages_def Let_def split: option.splits)














lemma loading_not_set_resume: "SetLoading True \<notin> set (fetch_resume outcome)"
  by (cases outcome rule: fetch_resume.cases) simp_all

lemma loading_not_set_fetch: "SetLoading True \<notin> set (fetchMessages store forContactId current)"
  by (simp add: fetchMessages_def Let_def loading_not_set_resume split: option.splits)

lemma loading_not_set_recovery: "SetLoading True \<notin> set (recovery store t current)"
  by (cases t) (simp_all add: loading_not_set_fetch)

lemma run_loading_mono:
  "SetLoading True \<notin> set es \<Longrightarrow> loading (run_effects es st) \<Longrightarrow> loading st"
proof (induction es arbitrary: st)
  case Nil then show ?case by (simp add: run_effects_def)
next
  case (Cons e es)
  from Cons.prems have "loading (run_effects es (apply_effect e st))" by (simp add: run_effects_def)
  with Cons have "loading (apply_effect e st)" by simp
  with Cons.prems show ?case by (cases e) (auto)
qed

subsection \<open>Preservation of \<open>no_duplicates\<close>\<close>

lemma nd_Nil: "no_duplicates []"
  by (simp add: no_duplicates_def)

lemma nd_Cons:
  "no_duplicates (x # xs) \<longleftrightarrow> no_duplicates xs \<and> (\<forall>m\<in>set xs. \<not> same_message x m)"
  by (cases "truthy_str (mid x)") (auto simp: no_duplicates_def same_message_def image_iff)

lemma nd_append:
  "no_duplicates xs \<Longrightarrow> \<not> list_ex (same_message y) xs \<Longrightarrow> no_duplicates (xs @ [y])"
proof (induction xs)
  case Nil then show ?case by (simp add: nd_Cons nd_Nil)
next
  case (Cons x xs)
  then show ?case
    using same_message_sym [of y x] by (auto simp: nd_Cons)
qed

lemma nd_filter: "no_duplicates xs \<Longrightarrow> no_duplicates (filter Q xs)"
  by (induction xs) (auto simp: nd_Cons nd_Nil)

lemma nd_swap:
  "no_duplicates (A @ x # B) \<Longrightarrow> \<forall>m \<in> set A \<union> set B. \<not> same_message y m \<Longrightarrow>
   no_duplicates (A @ y # B)"
proof (induction A)
  case Nil then show ?case by (simp add: nd_Cons)
next
  case (Cons a A)
  then show ?case
    using same_message_sym [of y a] by (auto simp: nd_Cons)
qed

lemma nd_insert:
  assumes "no_duplicates prev" and "single_match n prev"
  shows "no_duplicates (insert_updater n prev)"
proof (cases "findIndex (same_message n) prev")
  case None
  then have "\<not> list_ex (same_message (n\<lparr>status := Some Sent\<rparr>)) prev"
    by (simp add: findIndex_None same_message_status)
  with assms(1) None show ?thesis
    by (simp add: insert_updater_def nd_append)
next
  case (Some i)
  let ?n = "n\<lparr>status := Some Sent\<rparr>"
  from findIndex_split [OF Some] assms(2)
  have i: "i < length prev"
    and others: "\<forall>m \<in> set (take i prev) \<union> set (drop (Suc i) prev). \<not> same_message ?n m"
    by (simp_all add: single_match_def same_message_status)
  from i have "prev = take i prev @ prev ! i # drop (Suc i) prev"
    by (rule id_take_nth_drop)
  with assms(1) have "no_duplicates (take i prev @ prev ! i # drop (Suc i) prev)" by simp
  then have "no_duplicates (take i prev @ ?n # drop (Suc i) prev)"
    using others by (rule nd_swap)
  with i Some show ?thesis
    by (simp add: insert_updater_def upd_conv_take_nth_drop)
qed

lemma nd_update_hit:
  "no_duplicates xs \<Longrightarrow>
   \<forall>m\<in>set xs. msg_id m \<noteq> msg_id u \<longrightarrow> \<not> (truthy_str (mid m) \<and> mid m = mid u) \<Longrightarrow>
   msg_id u' = msg_id u \<Longrightarrow> mid u' = mid u \<Longrightarrow>
   no_duplicates (map (\<lambda>m. if msg_id m = msg_id u then u' else m) xs)"
proof (induction xs)
  case Nil then show ?case by (simp add: nd_Nil)
next
  case (Cons x xs)
  from Cons.prems have nd: "no_duplicates xs" and fresh: "\<forall>m\<in>set xs. \<not> same_message x m"
    by (simp_all add: nd_Cons)
  show ?case
  proof (cases "msg_id x = msg_id u")
    case True
    with fresh have "\<forall>m\<in>set xs. msg_id m \<noteq> msg_id u"
      by (auto simp: same_message_def)
    then have same: "map (\<lambda>m. if msg_id m = msg_id u then u' else m) xs = xs"
      and "\<forall>m\<in>set xs. \<not> same_message u' m"
      using Cons.prems by (auto simp: map_no_hit same_message_def)
    with nd True show ?thesis by (simp add: nd_Cons)
  next
    case False
    have IH: "no_duplicates (map (\<lambda>m. if msg_id m = msg_id u then u' else m) xs)"
      using Cons.IH nd Cons.prems by simp
    from Cons.prems False have "\<not> same_message x u'"
      by (auto simp: same_message_def)
    with fresh False IH show ?thesis by (auto simp: nd_Cons)
  qed
qed

lemma nd_update:
  assumes "no_duplicates prev" and "mid_free u prev"
  shows "no_duplicates (update_updater u prev)"
proof (cases "list_ex (\<lambda>m. msg_id m = msg_id u) prev")
  case False
  then have "update_updater u prev = prev"
    by (simp add: update_updater_def map_no_hit list_ex_iff)
  with assms(1) show ?thesis by simp
next
  case True
  with assms(2) have "\<forall>m\<in>set prev. msg_id m \<noteq> msg_id u \<longrightarrow> \<not> (truthy_str (mid m) \<and> mid m = mid u)"
    by (auto simp: mid_free_def list_ex_iff)
  with assms(1) show ?thesis
    unfolding update_updater_def by (rule nd_update_hit) simp_all
qed

lemma nd_submit:
  "no_duplicates (messages st) \<Longrightarrow>
   no_duplicates (messages (snd (addOptimisticMessage now nowIso message st)))"
  by (simp add: addOptimisticMessage_def Let_def nd_append)

lemma nd_realtime:
  assumes "no_duplicates (messages st)" and "admissible st (Realtime pl)"
  shows "no_duplicates (messages (on_postgres_changes pl st))"
proof (cases "accepted st pl")
  case False
  with assms(1) show ?thesis by (simp add: handler_rejected)
next
  case True
  with assms show ?thesis
    by (cases "eventType pl")
      (simp_all add: handler_accepted nd_insert nd_update nd_filter delete_updater_def)
qed

lemma nd_resume:
  "no_duplicates (messages st) \<Longrightarrow> snapshot_ok outcome \<Longrightarrow>
   no_duplicates (messages (run_effects (fetch_resume outcome) st))"
  by (cases outcome rule: fetch_resume.cases)
    (auto simp: run_effects_def nd_Nil split: option.splits)

lemma nd_fetch:
  assumes "no_duplicates (messages st)"
    and "case requested_id forContactId current of Some c \<Rightarrow> snapshot_ok (store c) | None \<Rightarrow> True"
  shows "no_duplicates (messages (run_effects (fetchMessages store forContactId current) st))"
proof (cases "requested_id forContactId current")
  case None
  then show ?thesis by (simp add: fetchMessages_def run_effects_def nd_Nil)
next
  case (Some c)
  show ?thesis
  proof (cases "c = []")
    case True
    with Some show ?thesis by (simp add: fetchMessages_def run_effects_def nd_Nil)
  next
    case False
    from assms Some have "no_duplicates (messages (run_effects (fetch_resume (store c))
        (run_effects [SetError None, StoreQuery c] st)))"
      by (intro nd_resume) (simp_all add: run_effects_def)
    with Some False show ?thesis
      by (simp add: fetchMessages_def run_effects_def)
  qed
qed

lemma nd_select:
  assumes "case cid of Some c \<Rightarrow> snapshot_ok (store c) | None \<Rightarrow> True"
  shows "no_duplicates (messages (run_effects (setContactId store cid) st))"
proof -
  have "no_duplicates (messages (run_effects [SetContactIdRef cid, SetMessages [], SetLoading True] st))"
    by (simp add: run_effects_def nd_Nil)
  then have "no_duplicates (messages (run_effects (fetchMessages store (Some cid) cid)
      (run_effects [SetContactIdRef cid, SetMessages [], SetLoading True] st)))"
    using assms by (intro nd_fetch) (simp_all add: requested_id_def)
  then show ?thesis
    by (simp only: setContactId_def run_effects_append)
qed

lemma nd_recover:
  assumes "no_duplicates (messages st)"
    and "case current of Some c \<Rightarrow> snapshot_ok (store c) | None \<Rightarrow> True"
  shows "no_duplicates (messages (run_effects (recovery store t current) st))"
proof -
  from assms have "no_duplicates (messages (run_effects (fetchMessages store None current) st))"
    by (intro nd_fetch) (simp_all add: requested_id_def)
  with assms(1) show ?thesis
    by (cases t) (simp_all add: run_effects_def)
qed

lemma nd_step:
  "no_duplicates (messages st) \<Longrightarrow> admissible st ev \<Longrightarrow> no_duplicates (messages (step ev st))"
proof (cases ev)
  case (Realtime pl)
  assume "no_duplicates (messages st)" "admissible st ev"
  with Realtime show ?thesis using nd_realtime by simp
next
  case (Submit now nowIso message)
  assume "no_duplicates (messages st)"
  with Submit show ?thesis by (simp add: nd_submit)
next
  case (Fetch store forContactId)
  assume "no_duplicates (messages st)" "admissible st ev"
  with Fetch show ?thesis by (simp add: nd_fetch)
next
  case (Select store cid)
  assume "admissible st ev"
  with Select show ?thesis by (simp add: nd_select)
next
  case (Recover store t)
  assume "no_duplicates (messages st)" "admissible st ev"
  with Recover show ?thesis by (simp add: nd_recover)
next
  case (Resume outcome)
  assume "no_duplicates (messages st)" "admissible st ev"
  with Resume show ?thesis by (simp add: nd_resume)
qed

subsection \<open>The push listener\<close>

lemma get_prop_not_null: "v \<noteq> JNull \<Longrightarrow> \<exists>x. get_prop v k = Inr x"
  by (cases v) simp_all

section \<open>Properties of the synchronisation engine\<close>

subsection \<open>No duplicates accumulate\<close>

text \<open>
  Claim C1, as amended. Start from a list with at most one entry per identifier and at
  most one entry per non-empty external message identifier. Run any sequence of realtime
  events, optimistic submissions, contact selections, fetches, recovery triggers and late
  fetch completions in which every snapshot that arrives is free of duplicates, every
  INSERT the handler accepts carries a row that matches at most one entry of the list at
  that moment, and every UPDATE it accepts either hits no entry or brings no non-empty
  external identifier held by an entry with another identifier. Then the resulting list
  again has at most one entry per identifier and per non-empty external identifier.
\<close>

theorem no_duplicates_preserved:
  "no_duplicates (messages st) \<Longrightarrow> run_admissible st evs \<Longrightarrow>
   no_duplicates (messages (run evs st))"
proof (induction evs arbitrary: st)
  case Nil then show ?case by (simp add: run_def)
next
  case (Cons ev evs)
  from Cons.prems have "no_duplicates (messages (step ev st))" by (simp add: nd_step)
  moreover from Cons.prems have "run_admissible (step ev st) evs" by simp
  ultimately have "no_duplicates (messages (run evs (step ev st)))" by (rule Cons.IH)
  then show ?case by (simp add: run_def)
qed

theorem no_duplicates_preserved_witness:
  "no_duplicates (messages initial_state) \<and> run_admissible initial_state calm_events \<and>
   no_duplicates (messages (run calm_events initial_state)) \<and>
   messages (run calm_events initial_state) =
     [(row 6 (Some ''555'') None (Some ''wamid.Z''))\<lparr>status := Some Sent\<rparr>,
      synthesize 1002 ''t3'' (partial None None)]"
  using no_duplicates_preserved [where st = initial_state and evs = calm_events]
  by (simp add: calm_events_def run_def setContactId_def fetchMessages_def requested_id_def
      run_effects_def empty_store_def accepted_def single_match_def
      mid_free_def nd_Nil eval_defs)

text \<open>
  Without the restriction on INSERT the invariant breaks. Chat 555 is selected and its
  snapshot is empty; two optimistic messages are submitted, one with identifier 5 and
  one with identifier 6 and external identifier wamid.X; then an INSERT arrives for a
  row with identifier 5 and external identifier wamid.X. \<^verbatim>\<open>findIndex\<close> stops at the
  first of the two entries that match, so the second keeps its external identifier and
  the list holds wamid.X twice.
\<close>

theorem insert_double_match_duplicates:
  "no_duplicates (messages initial_state) \<and>
   snapshot_ok (empty_store ''555'') \<and>
   \<not> no_duplicates (messages (run clash_events initial_state))"
  by (simp add: clash_events_def run_def setContactId_def fetchMessages_def requested_id_def
      run_effects_def empty_store_def no_duplicates_def eval_defs)

subsection \<open>Optimistic message followed by its INSERT\<close>

text \<open>
  Claim C2, as amended. Let the handler accept an INSERT whose row matches the record
  synthesized for an optimistic submission (same identifier, or same non-empty external
  identifier), and let no entry that was in the list before the submission match that
  row. Then after the submission and the INSERT the list is the earlier list followed
  by the row with status sent: that is the only entry matching the row, and where the
  optimistic record had been appended it has been replaced in place, at the position it
  held.
\<close>

theorem optimistic_then_insert_reconciles:
  assumes acc: "accepted st pl" and ins: "eventType pl = INSERT"
    and match: "same_message (new pl) (synthesize now nowIso message)"
    and fresh: "\<not> list_ex (same_message (new pl)) (messages st)"
  shows
   "messages (step (Realtime pl) (step (Submit now nowIso message) st)) =
      messages st @ [new pl\<lparr>status := Some Sent\<rparr>] \<and>
    filter (same_message (new pl)) (messages (step (Realtime pl) (step (Submit now nowIso message) st))) =
      [new pl\<lparr>status := Some Sent\<rparr>] \<and>
    (\<not> list_ex (same_message (synthesize now nowIso message)) (messages st) \<longrightarrow>
       messages (step (Submit now nowIso message) st) = messages st @ [synthesize now nowIso message] \<and>
       messages (step (Realtime pl) (step (Submit now nowIso message) st)) =
         (messages (step (Submit now nowIso message) st))
           [length (messages st) := new pl\<lparr>status := Some Sent\<rparr>])"
proof -
  let ?st1 = "step (Submit now nowIso message) st"
  let ?sent = "new pl\<lparr>status := Some Sent\<rparr>"
  from acc have "accepted ?st1 pl"
    by (simp add: accepted_def submit_keeps_contact)
  with ins have handler: "messages (step (Realtime pl) ?st1) = insert_updater (new pl) (messages ?st1)"
    by (simp add: handler_accepted)
  have result: "messages (step (Realtime pl) ?st1) = messages st @ [?sent]"
  proof (cases "list_ex (same_message (synthesize now nowIso message)) (messages st)")
    case True
    then have "?st1 = st" by (simp add: submit_existing)
    with handler fresh show ?thesis by (simp add: insert_updater_fresh)
  next
    case False
    then have "messages ?st1 = messages st @ [synthesize now nowIso message]"
      by (simp add: submit_fresh)
    with handler fresh match show ?thesis by (simp add: insert_updater_last)
  qed
  have "same_message (new pl) ?sent" by (simp add: same_message_def)
  moreover from fresh have "filter (same_message (new pl)) (messages st) = []"
    by (simp add: filter_empty_conv list_ex_iff)
  ultimately have one: "filter (same_message (new pl)) (messages (step (Realtime pl) ?st1)) = [?sent]"
    using result by simp
  have "messages ?st1 = messages st @ [synthesize now nowIso message] \<and>
      messages (step (Realtime pl) ?st1) = (messages ?st1)[length (messages st) := ?sent]"
    if "\<not> list_ex (same_message (synthesize now nowIso message)) (messages st)"
    using that result by (simp add: submit_fresh)
  with result one show ?thesis by blast
qed

theorem optimistic_then_insert_reconciles_witness:
  "accepted (chat_state two_rows)
      \<lparr>eventType = INSERT, new = row 77 None (Some ''555'') (Some ''wamid.X''), old_id = 0\<rparr> \<and>
   same_message (row 77 None (Some ''555'') (Some ''wamid.X''))
      (synthesize 1000 ''t1'' (partial None (Some ''wamid.X''))) \<and>
   \<not> list_ex (same_message (row 77 None (Some ''555'') (Some ''wamid.X''))) two_rows \<and>
   \<not> list_ex (same_message (synthesize 1000 ''t1'' (partial None (Some ''wamid.X'')))) two_rows \<and>
   messages (step (Submit 1000 ''t1'' (partial None (Some ''wamid.X''))) (chat_state two_rows)) =
     two_rows @ [synthesize 1000 ''t1'' (partial None (Some ''wamid.X''))] \<and>
   messages (step (Realtime \<lparr>eventType = INSERT, new = row 77 None (Some ''555'') (Some ''wamid.X''), old_id = 0\<rparr>)
      (step (Submit 1000 ''t1'' (partial None (Some ''wamid.X''))) (chat_state two_rows))) =
     two_rows @ [(row 77 None (Some ''555'') (Some ''wamid.X''))\<lparr>status := Some Sent\<rparr>]"
  using optimistic_then_insert_reconciles [where st = "chat_state two_rows" and now = 1000
      and nowIso = "''t1''" and message = "partial None (Some ''wamid.X'')"
      and pl = "\<lparr>eventType = INSERT, new = row 77 None (Some ''555'') (Some ''wamid.X''), old_id = 0\<rparr>"]
  by (simp add: accepted_def eval_defs)

text \<open>
  When an earlier entry matches the row as well, the earlier entry is the one replaced.
  The list holds a message with identifier 5; the optimistic message has identifier 6
  and external identifier wamid.X; the INSERT carries identifier 5 and external
  identifier wamid.X. Afterwards two entries match the row, and the optimistic one
  still has status sending.
\<close>

theorem optimistic_then_insert_leaves_two:
  "accepted clash_state clash_insert \<and>
   same_message (new clash_insert) (synthesize 1000 ''t1'' (partial (Some 6) (Some ''wamid.X''))) \<and>
   messages (step (Realtime clash_insert)
      (step (Submit 1000 ''t1'' (partial (Some 6) (Some ''wamid.X''))) clash_state)) =
     [(new clash_insert)\<lparr>status := Some Sent\<rparr>,
      synthesize 1000 ''t1'' (partial (Some 6) (Some ''wamid.X''))] \<and>
   status (synthesize 1000 ''t1'' (partial (Some 6) (Some ''wamid.X''))) = Some Sending \<and>
   length (filter (same_message (new clash_insert)) (messages (step (Realtime clash_insert)
      (step (Submit 1000 ''t1'' (partial (Some 6) (Some ''wamid.X''))) clash_state)))) = 2"
  by (simp add: clash_state_def clash_insert_def accepted_def eval_defs)

subsection \<open>Effect of an accepted realtime event\<close>

text \<open>
  Claim C3. For an event the handler accepts: an INSERT whose row matches an entry (same
  identifier, or same non-empty external identifier) replaces the first such entry, at
  its position, by the row with status sent, and otherwise appends the row with status
  sent; an UPDATE replaces the entries that have the row's identifier by the row with
  status sent and leaves the list as it is when there is none; a DELETE removes the
  entries with the deleted identifier and leaves the list as it is when there is none.
  List update, \<open>map\<close> and \<open>filter\<close> leave every other entry and the order alone.
\<close>

theorem accepted_event_effect:
  assumes "accepted st pl"
  shows
   "(eventType pl = INSERT \<and> list_ex (same_message (new pl)) (messages st) \<longrightarrow>
       (\<exists>i<length (messages st).
           same_message (new pl) (messages st ! i) \<and>
           (\<forall>j<i. \<not> same_message (new pl) (messages st ! j)) \<and>
           messages (on_postgres_changes pl st) = (messages st)[i := new pl\<lparr>status := Some Sent\<rparr>])) \<and>
    (eventType pl = INSERT \<and> \<not> list_ex (same_message (new pl)) (messages st) \<longrightarrow>
        messages (on_postgres_changes pl st) = messages st @ [new pl\<lparr>status := Some Sent\<rparr>]) \<and>
    (eventType pl = UPDATE \<longrightarrow>
        messages (on_postgres_changes pl st) =
          map (\<lambda>m. if msg_id m = msg_id (new pl) then new pl\<lparr>status := Some Sent\<rparr> else m) (messages st) \<and>
        ((\<forall>m\<in>set (messages st). msg_id m \<noteq> msg_id (new pl)) \<longrightarrow>
           messages (on_postgres_changes pl st) = messages st)) \<and>
    (eventType pl = DELETE \<longrightarrow>
        messages (on_postgres_changes pl st) = filter (\<lambda>m. msg_id m \<noteq> old_id pl) (messages st) \<and>
        ((\<forall>m\<in>set (messages st). msg_id m \<noteq> old_id pl) \<longrightarrow>
           messages (on_postgres_changes pl st) = messages st))"
proof (cases "eventType pl")
  case INSERT
  with assms have "messages (on_postgres_changes pl st) = insert_updater (new pl) (messages st)"
    by (simp add: handler_accepted)
  with INSERT show ?thesis
    using insert_updater_match [of "new pl" "messages st"] insert_updater_fresh [of "new pl" "messages st"]
    by simp
next
  case UPDATE
  with assms have "messages (on_postgres_changes pl st) = update_updater (new pl) (messages st)"
    by (simp add: handler_accepted)
  with UPDATE show ?thesis
    by (simp add: update_updater_def map_no_hit)
next
  case DELETE
  with assms have "messages (on_postgres_changes pl st) = delete_updater (old_id pl) (messages st)"
    by (simp add: handler_accepted)
  with DELETE show ?thesis
    by (simp add: delete_updater_def)
qed

theorem accepted_event_effect_witness:
  "accepted (chat_state two_rows)
      \<lparr>eventType = INSERT, new = row 7 (Some ''555'') None (Some ''wamid.A''), old_id = 0\<rparr> \<and>
   list_ex (same_message (row 7 (Some ''555'') None (Some ''wamid.A''))) two_rows \<and>
   messages (on_postgres_changes
      \<lparr>eventType = INSERT, new = row 7 (Some ''555'') None (Some ''wamid.A''), old_id = 0\<rparr>
      (chat_state two_rows)) =
     [(row 7 (Some ''555'') None (Some ''wamid.A''))\<lparr>status := Some Sent\<rparr>, row 2 None (Some ''555'') None] \<and>
   \<not> list_ex (same_message (row 3 (Some ''555'') None None)) two_rows \<and>
   messages (on_postgres_changes
      \<lparr>eventType = INSERT, new = row 3 (Some ''555'') None None, old_id = 0\<rparr> (chat_state two_rows)) =
     two_rows @ [(row 3 (Some ''555'') None None)\<lparr>status := Some Sent\<rparr>] \<and>
   messages (on_postgres_changes
      \<lparr>eventType = UPDATE, new = row 2 None (Some ''555'') (Some ''wamid.B''), old_id = 0\<rparr>
      (chat_state two_rows)) =
     [row 1 (Some ''555'') None (Some ''wamid.A''),
      (row 2 None (Some ''555'') (Some ''wamid.B''))\<lparr>status := Some Sent\<rparr>] \<and>
   messages (on_postgres_changes
      \<lparr>eventType = UPDATE, new = row 9 None (Some ''555'') None, old_id = 0\<rparr> (chat_state two_rows)) =
     two_rows \<and>
   accepted (chat_state two_rows) \<lparr>eventType = DELETE, new = empty_row, old_id = 1\<rparr> \<and>
   messages (on_postgres_changes \<lparr>eventType = DELETE, new = empty_row, old_id = 1\<rparr> (chat_state two_rows)) =
     [row 2 None (Some ''555'') None] \<and>
   messages (on_postgres_changes \<lparr>eventType = DELETE, new = empty_row, old_id = 9\<rparr> (chat_state two_rows)) =
     two_rows"
  using
    accepted_event_effect [where st = "chat_state two_rows"
        and pl = "\<lparr>eventType = INSERT, new = row 7 (Some ''555'') None (Some ''wamid.A''), old_id = 0\<rparr>"]
    accepted_event_effect [where st = "chat_state two_rows"
        and pl = "\<lparr>eventType = INSERT, new = row 3 (Some ''555'') None None, old_id = 0\<rparr>"]
    accepted_event_effect [where st = "chat_state two_rows"
        and pl = "\<lparr>eventType = UPDATE, new = row 2 None (Some ''555'') (Some ''wamid.B''), old_id = 0\<rparr>"]
    accepted_event_effect [where st = "chat_state two_rows"
        and pl = "\<lparr>eventType = UPDATE, new = row 9 None (Some ''555'') None, old_id = 0\<rparr>"]
    accepted_event_effect [where st = "chat_state two_rows"
        and pl = "\<lparr>eventType = DELETE, new = empty_row, old_id = 1\<rparr>"]
    accepted_event_effect [where st = "chat_state two_rows"
        and pl = "\<lparr>eventType = DELETE, new = empty_row, old_id = 9\<rparr>"]
  by (simp add: accepted_def eval_defs)

subsection \<open>Which events are ignored\<close>

text \<open>
  Claim C4, as amended. With no chat open (the reference is null or the empty string)
  every event leaves the state unchanged. The owning contact of a row is its sender when
  the sender is a non-empty string of decimal digits, and its recipient otherwise. An
  INSERT or UPDATE whose owning contact is not the open chat leaves the state unchanged.
  A DELETE is not filtered by contact: whenever a chat is open it removes the entries
  carrying the deleted identifier.
\<close>

theorem event_filtering:
  "(\<not> truthy_str (contactIdRef st) \<longrightarrow> on_postgres_changes pl st = st) \<and>
   (eventType pl \<noteq> DELETE \<and> msgContact (new pl) \<noteq> contactIdRef st \<longrightarrow>
      on_postgres_changes pl st = st) \<and>
   (msg_from m = Some f \<and> f \<noteq> [] \<and> set f \<subseteq> set ''0123456789'' \<longrightarrow> msgContact m = Some f) \<and>
   (\<not> (\<exists>f. msg_from m = Some f \<and> f \<noteq> [] \<and> set f \<subseteq> set ''0123456789'') \<longrightarrow>
      msgContact m = msg_to m) \<and>
   (truthy_str (contactIdRef st) \<and> eventType pl = DELETE \<longrightarrow>
      messages (on_postgres_changes pl st) = filter (\<lambda>m. msg_id m \<noteq> old_id pl) (messages st))"
proof -
  have "msgContact m = Some f" if "msg_from m = Some f" "f \<noteq> []" "set f \<subseteq> set ''0123456789''" for f
    using that all_digits_iff [of f] by (simp add: msgContact_def)
  moreover have "msgContact m = msg_to m"
    if "\<not> (\<exists>f. msg_from m = Some f \<and> f \<noteq> [] \<and> set f \<subseteq> set ''0123456789'')"
    using that all_digits_iff by (auto simp: msgContact_def split: option.splits)
  moreover have "on_postgres_changes pl st = st" if "\<not> truthy_str (contactIdRef st)"
    using that by (simp add: handler_rejected accepted_def)
  moreover have "on_postgres_changes pl st = st"
    if "eventType pl \<noteq> DELETE" "msgContact (new pl) \<noteq> contactIdRef st"
    using that by (simp add: handler_rejected accepted_def)
  moreover have "messages (on_postgres_changes pl st) = filter (\<lambda>m. msg_id m \<noteq> old_id pl) (messages st)"
    if "truthy_str (contactIdRef st)" "eventType pl = DELETE"
    using that by (simp add: handler_accepted accepted_def delete_updater_def)
  ultimately show ?thesis by blast
qed

theorem event_filtering_witness:
  "\<not> truthy_str (contactIdRef initial_state) \<and>
   on_postgres_changes \<lparr>eventType = INSERT, new = row 3 (Some ''555'') None None, old_id = 0\<rparr>
      initial_state = initial_state \<and>
   msgContact (row 3 (Some ''777'') (Some ''555'') None) \<noteq> contactIdRef (chat_state two_rows) \<and>
   on_postgres_changes \<lparr>eventType = UPDATE, new = row 3 (Some ''777'') (Some ''555'') None, old_id = 0\<rparr>
      (chat_state two_rows) = chat_state two_rows \<and>
   msgContact (row 3 (Some ''777'') (Some ''555'') None) = Some ''777'' \<and>
   msgContact (row 3 (Some ''agent'') (Some ''555'') None) = Some ''555'' \<and>
   truthy_str (contactIdRef (chat_state two_rows)) \<and>
   messages (on_postgres_changes \<lparr>eventType = DELETE, new = empty_row, old_id = 1\<rparr>
      (chat_state two_rows)) = [row 2 None (Some ''555'') None]"
  using
    event_filtering [where st = initial_state
        and pl = "\<lparr>eventType = INSERT, new = row 3 (Some ''555'') None None, old_id = 0\<rparr>"]
    event_filtering [where st = "chat_state two_rows" and m = "row 3 (Some ''777'') (Some ''555'') None"
        and f = "''777''"
        and pl = "\<lparr>eventType = UPDATE, new = row 3 (Some ''777'') (Some ''555'') None, old_id = 0\<rparr>"]
    event_filtering [where st = "chat_state two_rows" and m = "row 3 (Some ''agent'') (Some ''555'') None"
        and pl = "\<lparr>eventType = DELETE, new = empty_row, old_id = 1\<rparr>"]
  by (simp add: eval_defs)

text \<open>
  A DELETE whose row names no contact at all, so that its owning contact is not the open
  chat 555, still changes the state: it removes the entry with identifier 1.
\<close>

theorem delete_ignores_owner:
  "contactIdRef (chat_state two_rows) = Some ''555'' \<and>
   msgContact (new \<lparr>eventType = DELETE, new = empty_row, old_id = 1\<rparr>) = None \<and>
   on_postgres_changes \<lparr>eventType = DELETE, new = empty_row, old_id = 1\<rparr> (chat_state two_rows)
     \<noteq> chat_state two_rows"
  by (simp add: eval_defs)

subsection \<open>A failed fetch\<close>




subsection \<open>Loading is set by selection only\<close>

text \<open>
  Claim C6. No recovery trigger and no call of \<^verbatim>\<open>fetchMessages\<close> performs
  \<^verbatim>\<open>setLoading(true)\<close>; at every point of a background refetch, loading can be true
  only if it was true before the refetch began. The realtime handler and the optimistic
  submission leave loading as it is. \<^verbatim>\<open>setContactId\<close> does perform \<^verbatim>\<open>setLoading(true)\<close>.
\<close>

theorem background_refetch_keeps_loading:
  "SetLoading True \<notin> set (recovery store t current) \<and>
   SetLoading True \<notin> set (fetchMessages store forContactId current) \<and>
   (\<forall>n. loading (run_effects (take n (recovery store t (contactIdRef st))) st) \<longrightarrow> loading st) \<and>
   loading (on_postgres_changes pl st) = loading st \<and>
   loading (snd (addOptimisticMessage now nowIso message st)) = loading st \<and>
   SetLoading True \<in> set (setContactId store cid)"
proof -
  have "loading st" if "loading (run_effects (take n (recovery store t (contactIdRef st))) st)" for n
  proof -
    have "SetLoading True \<notin> set (take n (recovery store t (contactIdRef st)))"
      using loading_not_set_recovery in_set_takeD by fastforce
    then show ?thesis using that by (rule run_loading_mono)
  qed
  then show ?thesis
    by (simp add: loading_not_set_recovery loading_not_set_fetch handler_keeps_loading
        submit_keeps_loading setContactId_def)
qed

theorem background_refetch_keeps_loading_witness:
  "loading (run_effects (take 1 (recovery failing_store Online (contactIdRef stale_state))) stale_state) \<and>
   loading stale_state \<and>
   \<not> loading (run_effects (recovery failing_store Online (contactIdRef stale_state)) stale_state)"
  using background_refetch_keeps_loading [where store = failing_store and t = Online
      and st = stale_state]
  by (simp add: stale_state_def fetchMessages_def requested_id_def run_effects_def failing_store_def)

subsection \<open>Idempotent optimistic submission\<close>

text \<open>
  Claim C7, as amended. When the record synthesized from a partial message matches an
  entry of the list (same identifier, or same non-empty external identifier), the
  submission leaves the state as it is; in every case it returns the synthesized record,
  whose status is sending. Two consecutive submissions that supply the same non-zero
  identifier add at most one entry.
\<close>

theorem submit_idempotent:
  "(list_ex (same_message (synthesize now nowIso message)) (messages st) \<longrightarrow>
      snd (addOptimisticMessage now nowIso message st) = st) \<and>
   fst (addOptimisticMessage now nowIso message st) = synthesize now nowIso message \<and>
   status (fst (addOptimisticMessage now nowIso message st)) = Some Sending \<and>
   (p_id message = Some i \<and> p_id message' = Some i \<and> i \<noteq> 0 \<longrightarrow>
      length (messages (step (Submit now' nowIso' message') (step (Submit now nowIso message) st)))
        \<le> length (messages st) + 1)"
proof -
  have "length (messages (step (Submit now' nowIso' message') (step (Submit now nowIso message) st)))
        \<le> length (messages st) + 1"
    if "p_id message = Some i" "p_id message' = Some i" "i \<noteq> 0"
  proof -
    from that have "msg_id (synthesize now' nowIso' message') = msg_id (synthesize now nowIso message)"
      by (simp add: synthesize_def)
    then show ?thesis by (rule submit_twice)
  qed
  then show ?thesis
    by (simp add: submit_existing) (simp add: addOptimisticMessage_def Let_def synthesize_def)
qed

theorem submit_idempotent_witness:
  "list_ex (same_message (synthesize 1000 ''t1'' (partial None (Some ''wamid.A'')))) two_rows \<and>
   addOptimisticMessage 1000 ''t1'' (partial None (Some ''wamid.A'')) (chat_state two_rows) =
     (synthesize 1000 ''t1'' (partial None (Some ''wamid.A'')), chat_state two_rows) \<and>
   p_id (partial (Some 42) None) = Some 42 \<and> (42::int) \<noteq> 0 \<and>
   length (messages (step (Submit 1001 ''t2'' (partial (Some 42) None))
      (step (Submit 1000 ''t1'' (partial (Some 42) None)) (chat_state two_rows)))) = 3"
  using
    submit_idempotent [where now = 1000 and nowIso = "''t1''"
        and message = "partial None (Some ''wamid.A'')" and st = "chat_state two_rows"]
    submit_idempotent [where now = 1000 and nowIso = "''t1''" and message = "partial (Some 42) None"
        and now' = 1001 and nowIso' = "''t2''" and message' = "partial (Some 42) None"
        and st = "chat_state two_rows" and i = 42]
  by (simp add: eval_defs)

text \<open>
  The supplied identifier 0 is falsy, so \<^verbatim>\<open>message.id || Date.now()\<close> replaces it by the
  clock: two submissions of the same partial message one millisecond apart add two
  entries.
\<close>

theorem submit_zero_id_adds_twice:
  "p_id (partial (Some 0) None) = Some 0 \<and>
   length (messages (step (Submit 1001 ''t2'' (partial (Some 0) None))
      (step (Submit 1000 ''t1'' (partial (Some 0) None)) initial_state))) =
     length (messages initial_state) + 2"
  by (simp add: eval_defs)

subsection \<open>No chat selected\<close>

text \<open>
  Claim C8. Selecting the null contact ends with an empty list and loading false, and
  performs no remote query. So does a fetch whose requested contact is null (or the empty
  string): a fetch without argument while no chat is open, or a fetch given null.
\<close>

theorem no_contact_clears_without_query:
  "messages (step (Select store None) st) = [] \<and>
   \<not> loading (step (Select store None) st) \<and>
   (\<forall>q. StoreQuery q \<notin> set (setContactId store None)) \<and>
   (\<not> truthy_str (requested_id forContactId (contactIdRef st)) \<longrightarrow>
      messages (step (Fetch store forContactId) st) = [] \<and>
      \<not> loading (step (Fetch store forContactId) st) \<and>
      (\<forall>q. StoreQuery q \<notin> set (fetchMessages store forContactId (contactIdRef st))))"
  by (simp add: setContactId_def fetch_no_contact requested_id_def run_effects_def)

theorem no_contact_clears_without_query_witness:
  "contactIdRef initial_state = None \<and>
   \<not> truthy_str (requested_id None (contactIdRef initial_state)) \<and>
   messages (step (Fetch failing_store None) (initial_state\<lparr>messages := two_rows, loading := True\<rparr>)) = [] \<and>
   \<not> loading (step (Fetch failing_store None) (initial_state\<lparr>messages := two_rows, loading := True\<rparr>)) \<and>
   StoreQuery ''555'' \<notin> set (fetchMessages failing_store None (contactIdRef initial_state))"
  using no_contact_clears_without_query [where store = failing_store and forContactId = None
      and st = "initial_state\<lparr>messages := two_rows, loading := True\<rparr>"]
  by (simp add: initial_state_def requested_id_def)

subsection \<open>Push payloads\<close>

text \<open>
  Claim C9, as amended. When the push event has no payload or its payload is not JSON,
  the listener shows a notification with title New Message and body You have a new
  message. When the payload parses to a JSON value other than null, the listener shows
  a notification whose title and body are that value's \<^verbatim>\<open>title\<close> and \<^verbatim>\<open>body\<close>
  properties (undefined where the value has none; the defaults are not used).
\<close>

theorem push_payload_fallback:
  "(d = NoData \<or> d = NotJson \<longrightarrow>
      (\<exists>n. push_listener d = Inr n \<and> n_title n = Some (JStr ''New Message'') \<and>
           n_body n = Some (JStr ''You have a new message''))) \<and>
   (v \<noteq> JNull \<longrightarrow>
      (\<exists>n. push_listener (Parsed v) = Inr n \<and> Inr (n_title n) = get_prop v ''title'' \<and>
           Inr (n_body n) = get_prop v ''body''))"
proof -
  have "\<exists>n. push_listener (Parsed v) = Inr n \<and> Inr (n_title n) = get_prop v ''title'' \<and>
           Inr (n_body n) = get_prop v ''body''" if "v \<noteq> JNull"
  proof -
    from that obtain t b x where "get_prop v ''title'' = Inr t" "get_prop v ''body'' = Inr b"
      "get_prop v ''data'' = Inr x"
      using get_prop_not_null by meson
    then show ?thesis by (simp add: push_listener_def)
  qed
  then show ?thesis
    by (auto simp: push_listener_def default_data_def)
qed

theorem push_payload_fallback_witness:
  "n_title (projr (push_listener NotJson)) = Some (JStr ''New Message'') \<and>
   n_body (projr (push_listener NotJson)) = Some (JStr ''You have a new message'') \<and>
   JObj [(''title'', JStr ''Ada''), (''body'', JStr ''hello'')] \<noteq> JNull \<and>
   n_title (projr (push_listener (Parsed (JObj [(''title'', JStr ''Ada''), (''body'', JStr ''hello'')]))))
     = Some (JStr ''Ada'') \<and>
   n_body (projr (push_listener (Parsed (JObj [(''title'', JStr ''Ada''), (''body'', JStr ''hello'')]))))
     = Some (JStr ''hello'')"
  using push_payload_fallback [where d = NotJson
      and v = "JObj [(''title'', JStr ''Ada''), (''body'', JStr ''hello'')]"]
  by auto

text \<open>
  The text \<^verbatim>\<open>null\<close> is JSON, so \<^verbatim>\<open>json()\<close> returns \<^verbatim>\<open>null\<close> without throwing;
  \<^verbatim>\<open>data.body\<close> then throws outside the \<^verbatim>\<open>try\<close> block and no notification is shown.
\<close>

theorem push_null_payload_throws: "push_listener (Parsed JNull) = Inl TypeError"
  by (simp add: push_listener_def)

subsection \<open>The error value is reset by a fetch\<close>




end
